theory Spec2Isabelle
  imports Complex_Main
begin

section \<open>The circuit breaker of \<open>circuit_breaker.py\<close>\<close>

subsection \<open>Data model\<close>

text \<open>
  The attribute \<open>state\<close> only ever holds one of the three string literals
  \<open>"CLOSED"\<close>, \<open>"OPEN"\<close> and \<open>"HALF-OPEN"\<close>.
\<close>

datatype cb_state = CLOSED | OPEN | HALF_OPEN

text \<open>
  The instance attributes set by \<open>__init__\<close>. Python integers are unbounded, and
  \<open>last_failure_time\<close> starts as \<open>None\<close>. A reading of the clock \<open>time.time()\<close> is a
  finite double, held as the real number it denotes; nothing is assumed about the order
  of readings, the clock may go back.
\<close>

record breaker =
  max_failures :: int
  reset_timeout :: int
  half_open_max_requests :: int
  failure_count :: int
  last_failure_time :: "real option"
  state :: cb_state
  half_open_request_count :: int

subsection \<open>Doubles\<close>

text \<open>
  The difference of two finite doubles is the exact difference rounded to the nearest
  double, ties to the even significand (IEEE 754 binary64), or an infinity when that
  is out of range. Two finite doubles never subtract to a NaN.
\<close>

datatype fval = Finite real | PosInf | NegInf

text \<open>\<open>ilog2 n\<close> is the floor and \<open>clog2 n\<close> the ceiling of the binary logarithm of \<open>n \<ge> 1\<close>.\<close>

function ilog2 :: "int \<Rightarrow> int" where
  "ilog2 n = (if n \<le> 1 then 0 else 1 + ilog2 (n div 2))"
  by pat_completeness auto
termination
  by (relation "measure nat") auto

declare ilog2.simps [simp del]

definition clog2 :: "int \<Rightarrow> int" where
  "clog2 n = (if n \<le> 1 then 0 else 1 + ilog2 (n - 1))"

text \<open>The exponent \<open>e\<close> of a positive real \<open>a\<close>: \<open>2 ^ e \<le> a < 2 ^ (e + 1)\<close>.\<close>

definition binade :: "real \<Rightarrow> int" where
  "binade a = (if 1 \<le> a then ilog2 \<lfloor>a\<rfloor> else - clog2 \<lceil>1 / a\<rceil>)"

definition pow2 :: "int \<Rightarrow> real" where
  "pow2 q = (if 0 \<le> q then 2 ^ nat q else 1 / 2 ^ nat (- q))"

definition round_half_even :: "real \<Rightarrow> int" where
  "round_half_even x =
     (let f = \<lfloor>x\<rfloor>; d = x - of_int f
      in if d < 1 / 2 then f else if 1 / 2 < d then f + 1
         else if even f then f else f + 1)"

text \<open>
  Rounding to a double: 53 significant bits, so the last place of a number of exponent
  \<open>e\<close> is \<open>2 ^ (e - 52)\<close>, and not below \<open>2 ^ (- 1074)\<close>, the last place of the
  subnormal numbers. What rounds to \<open>2 ^ 1024\<close> or more is an infinity.
\<close>

definition round_double :: "real \<Rightarrow> fval" where
  "round_double d =
     (if d = 0 then Finite 0
      else let a = \<bar>d\<bar>;
               q = max (binade a - 52) (- 1074);
               r = of_int (round_half_even (a / pow2 q)) * pow2 q
           in if 2 ^ 1024 \<le> r then (if 0 < d then PosInf else NegInf)
              else Finite (if 0 < d then r else - r))"

text \<open>\<open>x - y\<close> on doubles.\<close>

definition float_sub :: "real \<Rightarrow> real \<Rightarrow> fval" where
  "float_sub x y = round_double (x - y)"

text \<open>\<open>x >= k\<close> and \<open>x < k\<close> for a double and an integer, which Python compares exactly.\<close>

fun ge_int :: "fval \<Rightarrow> int \<Rightarrow> bool" where
  "ge_int (Finite r) k = (real_of_int k \<le> r)"
| "ge_int PosInf k = True"
| "ge_int NegInf k = False"

fun lt_int :: "fval \<Rightarrow> int \<Rightarrow> bool" where
  "lt_int (Finite r) k = (r < real_of_int k)"
| "lt_int PosInf k = False"
| "lt_int NegInf k = True"

subsection \<open>Exceptions\<close>

text \<open>
  Exceptions: a class, a message, and what converting the exception to a string does:
  \<open>None\<close> when \<open>__str__\<close> returns, \<open>Some e'\<close> when it raises \<open>e'\<close>.
  \<open>NonException n\<close> stands for a class that derives from \<open>BaseException\<close> but not
  from \<open>Exception\<close> (\<open>KeyboardInterrupt\<close>, \<open>SystemExit\<close>, ...); \<open>OtherException n\<close> for
  any further class below \<open>Exception\<close>.
\<close>

datatype exc_class = RuntimeError | TypeError | ValueError
  | OtherException string | NonException string

datatype exn = Exn exc_class string "exn option"

fun is_Exception :: "exn \<Rightarrow> bool" where
  "is_Exception (Exn (NonException n) m s) = False"
| "is_Exception (Exn c m s) = True"

fun str_raises :: "exn \<Rightarrow> exn option" where
  "str_raises (Exn c m s) = s"

text \<open>What the wrapped callable does when it is invoked.\<close>

datatype 'a outcome = Returns 'a | Raises exn

text \<open>
  The two errors \<open>call\<close> raises itself, and the one of \<open>time.time() - None\<close>, whose
  message has the two type names in single quotation marks (character \<open>0x27\<close>).
\<close>

definition circuit_open_error :: exn where
  "circuit_open_error = Exn RuntimeError ''Circuit is open. Service call blocked.'' None"

definition half_open_error :: exn where
  "half_open_error = Exn RuntimeError ''Circuit is HALF-OPEN. Too many test requests.'' None"

definition none_operand_error :: exn where
  "none_operand_error =
     Exn TypeError
       (''unsupported operand type(s) for -: '' @ [CHR 0x27] @ ''float'' @ [CHR 0x27]
          @ '' and '' @ [CHR 0x27] @ ''NoneType'' @ [CHR 0x27])
       None"

subsection \<open>Construction: \<open>__new__\<close> and \<open>__init__\<close>\<close>

text \<open>
  The class attribute \<open>_instance\<close> is \<open>None\<close> or the one object ever allocated. That
  object is \<open>Fresh\<close> between \<open>__new__\<close> and \<open>__init__\<close> (\<open>__initialized\<close> is False and no
  other attribute exists) and \<open>Ready\<close> afterwards.
\<close>

datatype cb_object = Fresh | Ready breaker

definition new :: "cb_object option \<Rightarrow> cb_object option" where
  "new cls_instance = (case cls_instance of None \<Rightarrow> Some Fresh | Some i \<Rightarrow> Some i)"

definition init :: "cb_object \<Rightarrow> int \<Rightarrow> int \<Rightarrow> int \<Rightarrow> cb_object" where
  "init self mf rt hm =
     (case self of
        Ready b \<Rightarrow> Ready b
      | Fresh \<Rightarrow> Ready \<lparr> max_failures = mf, reset_timeout = rt,
                        half_open_max_requests = hm, failure_count = 0,
                        last_failure_time = None, state = CLOSED,
                        half_open_request_count = 0 \<rparr>)"

text \<open>
  The expression \<open>CircuitBreaker(mf, rt, hm)\<close>: \<open>__new__\<close>, then \<open>__init__\<close> on the object
  it returned. The result is the new value of \<open>_instance\<close>, which is also the object the
  expression evaluates to.
\<close>

definition CircuitBreaker :: "cb_object option \<Rightarrow> int \<Rightarrow> int \<Rightarrow> int \<Rightarrow> cb_object option" where
  "CircuitBreaker cls_instance mf rt hm =
     map_option (\<lambda>self. init self mf rt hm) (new cls_instance)"

subsection \<open>\<open>reset\<close>, \<open>record_failure\<close> and \<open>call\<close>\<close>

definition reset :: "breaker \<Rightarrow> breaker" where
  "reset b = b\<lparr> failure_count := 0, state := CLOSED, half_open_request_count := 0 \<rparr>"

text \<open>\<open>now\<close> is the reading of \<open>time.time()\<close> in the last line of \<open>record_failure\<close>.\<close>

definition record_failure :: "real \<Rightarrow> breaker \<Rightarrow> breaker" where
  "record_failure now b =
     (let b1 = b\<lparr> failure_count := failure_count b + 1 \<rparr>;
          b2 = (if state b1 = HALF_OPEN then b1\<lparr> state := OPEN \<rparr>
                else if failure_count b1 \<ge> max_failures b1 then b1\<lparr> state := OPEN \<rparr>
                else b1)
      in b2\<lparr> last_failure_time := Some now \<rparr>)"

text \<open>The block under the lock at the head of \<open>call\<close>.\<close>

definition check_open :: "real \<Rightarrow> breaker \<Rightarrow> exn + breaker" where
  "check_open now b =
     (if state b = OPEN then
        (case last_failure_time b of
           None \<Rightarrow> Inl none_operand_error
         | Some t \<Rightarrow>
             if ge_int (float_sub now t) (reset_timeout b)
             then Inr (b\<lparr> state := HALF_OPEN, half_open_request_count := 0 \<rparr>)
             else Inl circuit_open_error)
      else Inr b)"

text \<open>The half-open admission that follows it.\<close>

definition check_half_open :: "breaker \<Rightarrow> exn + breaker" where
  "check_half_open b =
     (if state b = HALF_OPEN then
        (if half_open_request_count b \<ge> half_open_max_requests b
         then Inl half_open_error
         else Inr (b\<lparr> half_open_request_count := half_open_request_count b + 1 \<rparr>))
      else Inr b)"

text \<open>
  What one \<open>call\<close> leaves behind: what the caller sees, whether the wrapped callable was
  invoked, and the breaker afterwards.
\<close>

record 'a call_result =
  outcome :: "'a outcome"
  invoked :: bool
  after :: breaker

text \<open>
  The end of the \<open>except\<close> clause: the log line formats the exception in an f-string,
  which converts it to a string, and then the bare \<open>raise\<close> raises it again. When the
  conversion raises, that exception reaches the caller instead.
\<close>

definition log_and_reraise :: "exn \<Rightarrow> exn" where
  "log_and_reraise e = (case str_raises e of None \<Rightarrow> e | Some e' \<Rightarrow> e')"

text \<open>
  \<open>call b now func now'\<close> is one call that no other thread runs into: \<open>now\<close> is the
  clock read in the open branch, \<open>func\<close> is what the callable does if it is invoked,
  \<open>now'\<close> is the clock read by \<open>record_failure\<close>. An error raised before the \<open>try\<close>
  leaves the breaker as the lines before it made it. The clause \<open>except Exception\<close>
  lets an exception outside \<open>Exception\<close> pass without recording it. The callable
  itself does not touch the breaker, and the calls of the logger with a constant
  message change nothing. Calls of several threads, whose steps mix, are modelled
  further down.
\<close>

definition call :: "breaker \<Rightarrow> real \<Rightarrow> 'a outcome \<Rightarrow> real \<Rightarrow> 'a call_result" where
  "call b now func now' =
     (case check_open now b of
        Inl e \<Rightarrow> \<lparr> outcome = Raises e, invoked = False, after = b \<rparr>
      | Inr b1 \<Rightarrow>
          (case check_half_open b1 of
             Inl e \<Rightarrow> \<lparr> outcome = Raises e, invoked = False, after = b1 \<rparr>
           | Inr b2 \<Rightarrow>
               (case func of
                  Returns r \<Rightarrow> \<lparr> outcome = Returns r, invoked = True, after = reset b2 \<rparr>
                | Raises e \<Rightarrow>
                    if is_Exception e
                    then \<lparr> outcome = Raises (log_and_reraise e), invoked = True,
                           after = record_failure now' b2 \<rparr>
                    else \<lparr> outcome = Raises e, invoked = True, after = b2 \<rparr>)))"

text \<open>A sequence of calls on one breaker, each with its two clock readings.\<close>

type_synonym 'a event = "real \<times> 'a outcome \<times> real"

fun run :: "breaker \<Rightarrow> 'a event list \<Rightarrow> breaker" where
  "run b [] = b"
| "run b ((now, func, now') # evs) = run (after (call b now func now')) evs"

text \<open>The breaker a first construction yields.\<close>

definition initial :: "int \<Rightarrow> int \<Rightarrow> int \<Rightarrow> breaker" where
  "initial mf rt hm =
     \<lparr> max_failures = mf, reset_timeout = rt, half_open_max_requests = hm,
       failure_count = 0, last_failure_time = None, state = CLOSED,
       half_open_request_count = 0 \<rparr>"

subsection \<open>Concurrent calls\<close>

text \<open>
  Several threads inside \<open>call\<close> on the one shared breaker. A thread is at one of these
  points: before the \<open>with self._lock\<close> block at the head of \<open>call\<close>; past it, before
  the test of \<open>self.state == "HALF-OPEN"\<close>; past the limit test, before
  \<open>self.half_open_request_count += 1\<close>; before \<open>func(*args, **kwargs)\<close>; back from
  it, before the locked \<open>reset\<close> or \<open>record_failure\<close>; and out of \<open>call\<close>, with what
  the caller sees and whether the callable was invoked.
\<close>

datatype 'a pc = Start | Checked | Admitted | Invoking
  | Returned "'a outcome" | Finished "'a outcome" bool

text \<open>
  One step of one thread. The blocks that hold the lock are single steps. The half-open
  test and the increment are outside the lock in the source, so they are two steps, and
  other threads may run between them.
\<close>

fun thread_step :: "real \<Rightarrow> 'a outcome \<Rightarrow> 'a pc \<Rightarrow> breaker \<Rightarrow> 'a pc \<times> breaker" where
  "thread_step now func Start b =
     (case check_open now b of
        Inl e \<Rightarrow> (Finished (Raises e) False, b)
      | Inr b1 \<Rightarrow> (Checked, b1))"
| "thread_step now func Checked b =
     (if state b = HALF_OPEN then
        (if half_open_request_count b \<ge> half_open_max_requests b
         then (Finished (Raises half_open_error) False, b)
         else (Admitted, b))
      else (Invoking, b))"
| "thread_step now func Admitted b =
     (Invoking, b\<lparr> half_open_request_count := half_open_request_count b + 1 \<rparr>)"
| "thread_step now func Invoking b = (Returned func, b)"
| "thread_step now func (Returned (Returns r)) b = (Finished (Returns r) True, reset b)"
| "thread_step now func (Returned (Raises e)) b =
     (if is_Exception e
      then (Finished (Raises (log_and_reraise e)) True, record_failure now b)
      else (Finished (Raises e) True, b))"
| "thread_step now func (Finished out iv) b = (Finished out iv, b)"

text \<open>
  The shared breaker with the points of all threads; thread \<open>i\<close> calls with
  \<open>funcs ! i\<close>. A schedule names, step by step, the thread that runs and the clock.
\<close>

fun sys_step ::
  "'a outcome list \<Rightarrow> breaker \<times> 'a pc list \<Rightarrow> nat \<times> real \<Rightarrow> breaker \<times> 'a pc list" where
  "sys_step funcs (b, pcs) (i, now) =
     (if i < length pcs \<and> i < length funcs
      then (case thread_step now (funcs ! i) (pcs ! i) b of
              (pc', b') \<Rightarrow> (b', pcs[i := pc']))
      else (b, pcs))"

fun exec ::
  "'a outcome list \<Rightarrow> breaker \<times> 'a pc list \<Rightarrow> (nat \<times> real) list
     \<Rightarrow> breaker \<times> 'a pc list" where
  "exec funcs s [] = s"
| "exec funcs s (x # xs) = exec funcs (sys_step funcs s x) xs"

fun was_invoked :: "'a pc \<Rightarrow> bool" where
  "was_invoked (Returned out) = True"
| "was_invoked (Finished out iv) = iv"
| "was_invoked p = False"

fun was_rejected :: "'a pc \<Rightarrow> bool" where
  "was_rejected (Finished out iv) = (\<not> iv)"
| "was_rejected p = False"

definition invocations :: "'a pc list \<Rightarrow> nat" where
  "invocations pcs = length (filter was_invoked pcs)"

definition rejections :: "'a pc list \<Rightarrow> nat" where
  "rejections pcs = length (filter was_rejected pcs)"

subsection \<open>Concrete breakers and inputs\<close>

text \<open>
  The breaker of the module, \<open>CircuitBreaker(3, 3, 2)\<close>, after three failures recorded
  at time 0.
\<close>

definition tripped :: breaker where
  "tripped = \<lparr> max_failures = 3, reset_timeout = 3, half_open_max_requests = 2,
               failure_count = 3, last_failure_time = Some 0, state = OPEN,
               half_open_request_count = 0 \<rparr>"

text \<open>What \<open>unreliable_service(should_fail=True)\<close> raises, and an interrupt.\<close>

definition service_failed :: exn where
  "service_failed = Exn ValueError ''Service failed!'' None"

definition keyboard_interrupt :: exn where
  "keyboard_interrupt = Exn (NonException ''KeyboardInterrupt'') [] None"

text \<open>Three failing calls at time 0.\<close>

definition three_failures :: "bool event list" where
  "three_failures =
     [(0, Raises service_failed, 0), (0, Raises service_failed, 0),
      (0, Raises service_failed, 0)]"

text \<open>An exception below \<open>Exception\<close> whose \<open>__str__\<close> raises a \<open>ValueError\<close>.\<close>

definition unprintable :: exn where
  "unprintable =
     Exn (OtherException ''Unprintable'') [] (Some (Exn ValueError ''no text'' None))"

text \<open>
  The doubles nearest to 0.3 and to 3.3. Their exact difference is \<open>3 - 3 / 2 ^ 54\<close>.
\<close>

definition double_0_3 :: real where
  "double_0_3 = 5404319552844595 / 2 ^ 54"

definition double_3_3 :: real where
  "double_3_3 = 7430939385161318 / 2 ^ 51"

text \<open>
  Three threads at time 3. Thread 0 takes the lock block; then thread 1 and thread 2 each
  take the lock block, make the half-open test and increment; then thread 0 makes the
  half-open test.
\<close>

definition overtaking :: "(nat \<times> real) list" where
  "overtaking = [(0, 3), (1, 3), (1, 3), (1, 3), (2, 3), (2, 3), (2, 3), (0, 3)]"

text \<open>
  Three threads at time 3: each takes the lock block, then each makes the half-open
  test, then each increments.
\<close>

definition three_abreast :: "(nat \<times> real) list" where
  "three_abreast = [(0, 3), (1, 3), (2, 3), (0, 3), (1, 3), (2, 3), (0, 3), (1, 3), (2, 3)]"

text \<open>
  Five threads at time 3: each takes the lock block, then each makes the half-open
  test, then each increments, then each invokes its callable.
\<close>

definition lockstep :: "(nat \<times> real) list" where
  "lockstep = [(0, 3), (1, 3), (2, 3), (3, 3), (4, 3),
               (0, 3), (1, 3), (2, 3), (3, 3), (4, 3),
               (0, 3), (1, 3), (2, 3), (3, 3), (4, 3),
               (0, 3), (1, 3), (2, 3), (3, 3), (4, 3)]"

section \<open>Facts about doubles\<close>

lemma lt_int_iff: "lt_int x k = (\<not> ge_int x k)"
  by (cases x) auto

lemma ilog2_nonneg: "0 \<le> ilog2 n"
  by (induction n rule: ilog2.induct) (subst ilog2.simps, simp)

lemma ilog2_bounds:
  "1 \<le> n \<Longrightarrow> 2 ^ nat (ilog2 n) \<le> n \<and> n < 2 ^ nat (ilog2 n + 1)"
proof (induction n rule: ilog2.induct)
  case (1 n)
  show ?case
  proof (cases "n \<le> 1")
    case True
    with 1(2) have "n = 1" by simp
    then show ?thesis by (simp add: ilog2.simps)
  next
    case False
    then have h: "1 \<le> n div 2" by simp
    from 1(1) [OF False h]
    have ih: "2 ^ nat (ilog2 (n div 2)) \<le> n div 2" "n div 2 < 2 ^ nat (ilog2 (n div 2) + 1)"
      by simp_all
    have e: "ilog2 n = 1 + ilog2 (n div 2)"
      using False by (subst ilog2.simps) simp
    have nn: "0 \<le> ilog2 (n div 2)" by (rule ilog2_nonneg)
    have p: "nat (1 + ilog2 (n div 2)) = Suc (nat (ilog2 (n div 2)))"
      using nn by simp
    have p2: "nat (1 + ilog2 (n div 2) + 1) = Suc (Suc (nat (ilog2 (n div 2))))"
      using nn by simp
    have p3: "nat (ilog2 (n div 2) + 1) = Suc (nat (ilog2 (n div 2)))"
      using nn by simp
    from ih(1) have "2 * 2 ^ nat (ilog2 (n div 2)) \<le> n" by simp
    moreover from ih(2) have "n < 2 * 2 ^ Suc (nat (ilog2 (n div 2)))"
      unfolding p3 by simp
    ultimately show ?thesis unfolding e p p2 by simp
  qed
qed

lemma pow2_nonneg_exp: "0 \<le> k \<Longrightarrow> pow2 k = 2 ^ nat k"
  by (simp add: pow2_def)

lemma pow2_neg: "0 \<le> k \<Longrightarrow> pow2 (- k) = 1 / 2 ^ nat k"
  by (cases "k = 0") (simp_all add: pow2_def)

text \<open>\<open>binade\<close> is the exponent: a positive real lies in the binade it names.\<close>

lemma binade_bounds:
  assumes "0 < a"
  shows "pow2 (binade a) \<le> a \<and> a < pow2 (binade a + 1)"
proof (cases "1 \<le> a")
  case True
  let ?n = "\<lfloor>a\<rfloor>"
  let ?k = "ilog2 ?n"
  have n1: "1 \<le> ?n" using True by simp
  have k0: "0 \<le> ?k" by (rule ilog2_nonneg)
  from ilog2_bounds [OF n1]
  have lo: "2 ^ nat ?k \<le> ?n" and hi: "?n < 2 ^ nat (?k + 1)" by simp_all
  have "real_of_int (2 ^ nat ?k) \<le> real_of_int ?n"
    using lo by (simp only: of_int_le_iff)
  then have l: "(2::real) ^ nat ?k \<le> a"
    by (simp add: le_floor_iff)
  from hi have "?n + 1 \<le> 2 ^ nat (?k + 1)" by simp
  then have "real_of_int (?n + 1) \<le> real_of_int (2 ^ nat (?k + 1))"
    by (simp only: of_int_le_iff)
  then have g: "real_of_int ?n + 1 \<le> (2::real) ^ nat (?k + 1)" by simp
  have f: "a < real_of_int ?n + 1" by linarith
  from f g have h: "a < (2::real) ^ nat (?k + 1)" by linarith
  show ?thesis
    using True l h k0 by (simp add: binade_def pow2_nonneg_exp)
next
  case False
  then have a1: "a < 1" by simp
  let ?m = "\<lceil>1 / a\<rceil>"
  have inv: "1 < 1 / a" using assms a1 by simp
  then have m2: "2 \<le> ?m" by (simp add: le_ceiling_iff)
  let ?j = "ilog2 (?m - 1)"
  have j0: "0 \<le> ?j" by (rule ilog2_nonneg)
  have c: "clog2 ?m = 1 + ?j" using m2 by (simp add: clog2_def)
  have m1: "1 \<le> ?m - 1" using m2 by simp
  from ilog2_bounds [OF m1]
  have lo: "2 ^ nat ?j \<le> ?m - 1" and hi: "?m - 1 < 2 ^ nat (?j + 1)" by simp_all
  from hi have "?m \<le> 2 ^ nat (?j + 1)" by simp
  then have "real_of_int ?m \<le> real_of_int (2 ^ nat (?j + 1))"
    by (simp only: of_int_le_iff)
  then have g: "real_of_int ?m \<le> (2::real) ^ nat (?j + 1)" by simp
  have f: "1 / a \<le> real_of_int ?m" by linarith
  from f g have u: "1 / a \<le> (2::real) ^ nat (?j + 1)" by linarith
  have "real_of_int (2 ^ nat ?j) \<le> real_of_int (?m - 1)"
    using lo by (simp only: of_int_le_iff)
  then have g': "(2::real) ^ nat ?j \<le> real_of_int ?m - 1" by simp
  have f': "real_of_int ?m - 1 < 1 / a" by linarith
  from f' g' have v: "(2::real) ^ nat ?j < 1 / a" by linarith
  have b: "binade a = - (1 + ?j)" using False c by (simp add: binade_def)
  have b1: "binade a + 1 = - ?j" using b by simp
  have p: "pow2 (binade a) = 1 / 2 ^ nat (?j + 1)"
    unfolding b using pow2_neg [of "1 + ?j"] j0 by (simp add: add.commute)
  have q: "pow2 (binade a + 1) = 1 / 2 ^ nat ?j"
    unfolding b1 using pow2_neg [OF j0] by simp
  from u assms have "1 / 2 ^ nat (?j + 1) \<le> a"
    by (simp add: field_simps)
  moreover from v assms have "a < 1 / 2 ^ nat ?j"
    by (simp add: field_simps)
  ultimately show ?thesis unfolding p q by simp
qed

text \<open>\<open>round_half_even\<close> yields a nearest integer.\<close>

lemma round_half_even_nearest: "\<bar>real_of_int (round_half_even x) - x\<bar> \<le> 1 / 2"
  unfolding round_half_even_def Let_def by (simp; linarith)

text \<open>Differences of small whole readings are exact.\<close>

lemma float_sub_1_0: "float_sub 1 0 = Finite 1"
  unfolding float_sub_def round_double_def Let_def
  apply (simp add: binade_def clog2_def)
  apply (simp add: ilog2.simps)
  apply (simp add: pow2_def)
  apply (simp add: round_half_even_def Let_def)
  done

lemma float_sub_2_0: "float_sub 2 0 = Finite 2"
  unfolding float_sub_def round_double_def Let_def
  apply (simp add: binade_def clog2_def)
  apply (simp add: ilog2.simps)
  apply (simp add: pow2_def)
  apply (simp add: round_half_even_def Let_def)
  done

lemma float_sub_3_0: "float_sub 3 0 = Finite 3"
  unfolding float_sub_def round_double_def Let_def
  apply (simp add: binade_def clog2_def)
  apply (simp add: ilog2.simps)
  apply (simp add: pow2_def)
  apply (simp add: round_half_even_def Let_def)
  done

text \<open>
  A difference that is rounded: \<open>3.3 - 0.3\<close> is exactly below 3 and is the double 3.
\<close>

lemma float_sub_threshold:
  "double_3_3 - double_0_3 < 3 \<and> float_sub double_3_3 double_0_3 = Finite 3"
proof -
  have "float_sub double_3_3 double_0_3 = Finite 3"
    unfolding float_sub_def round_double_def Let_def double_3_3_def double_0_3_def
    apply (simp add: binade_def clog2_def)
    apply (simp add: ilog2.simps)
    apply (simp add: pow2_def)
    apply (simp add: round_half_even_def Let_def)
    done
  moreover have "double_3_3 - double_0_3 < 3"
    by (simp add: double_3_3_def double_0_3_def)
  ultimately show ?thesis by simp
qed

section \<open>Basic facts\<close>

lemmas call_defs = call_def check_open_def check_half_open_def reset_def record_failure_def

lemma CircuitBreaker_first:
  "CircuitBreaker None mf rt hm = Some (Ready (initial mf rt hm))"
  by (simp add: CircuitBreaker_def new_def init_def initial_def)

text \<open>No call touches the configuration.\<close>

lemma call_config:
  "max_failures (after (call b now func now')) = max_failures b"
  "reset_timeout (after (call b now func now')) = reset_timeout b"
  "half_open_max_requests (after (call b now func now')) = half_open_max_requests b"
  by (simp_all add: call_defs Let_def split: sum.splits option.splits outcome.splits)

lemma run_config:
  "max_failures (run b evs) = max_failures b \<and>
   reset_timeout (run b evs) = reset_timeout b \<and>
   half_open_max_requests (run b evs) = half_open_max_requests b"
  by (induction b evs rule: run.induct) (simp_all add: call_config)

text \<open>A call that does not invoke the callable raises one of three errors.\<close>

lemma not_invoked_errors:
  assumes "\<not> invoked (call b now func now')"
  shows "outcome (call b now func now') = Raises circuit_open_error \<or>
         outcome (call b now func now') = Raises half_open_error \<or>
         outcome (call b now func now') = Raises none_operand_error"
  using assms
  by (auto simp add: call_def check_open_def check_half_open_def
      split: sum.splits option.splits outcome.splits if_splits)

lemma invoked_failure_after:
  assumes "invoked (call b now (Raises e) now')" and "is_Exception e"
  shows "failure_count (after (call b now (Raises e) now')) = failure_count b + 1 \<and>
         last_failure_time (after (call b now (Raises e) now')) = Some now'"
  using assms
  by (auto simp add: call_def check_open_def check_half_open_def record_failure_def Let_def
      split: sum.splits option.splits if_splits)

text \<open>The module's breaker is open after its third failure in a row.\<close>

lemma three_failures_trip:
  "run (initial 3 3 2) three_failures = tripped"
  by (simp add: three_failures_def initial_def tripped_def service_failed_def call_defs)

text \<open>
  The scenario of the module: two successes, three failures, a blocked call, and after
  the timeout a trial call that succeeds and closes the circuit.
\<close>

lemma scenario:
  "run (initial 3 3 2)
     [(0, Returns True, 0), (0, Returns True, 0), (0, Raises service_failed, 0),
      (0, Raises service_failed, 0), (0, Raises service_failed, 0)] = tripped \<and>
   call tripped 1 (Returns True) 1 =
     \<lparr> outcome = Raises circuit_open_error, invoked = False, after = tripped \<rparr> \<and>
   call tripped 3 (Returns True) 3 =
     \<lparr> outcome = Returns True, invoked = True,
       after = \<lparr> max_failures = 3, reset_timeout = 3, half_open_max_requests = 2,
                 failure_count = 0, last_failure_time = Some 0, state = CLOSED,
                 half_open_request_count = 0 \<rparr> \<rparr>"
  by (simp add: initial_def tripped_def service_failed_def call_defs
      float_sub_1_0 float_sub_3_0)

text \<open>
  At the threshold the breaker follows the doubles: with the failure at 0.3 and the
  clock at 3.3 the computed difference is 3, and the call is admitted.
\<close>

lemma threshold_call_admitted:
  "invoked (call (tripped\<lparr> last_failure_time := Some double_0_3 \<rparr>) double_3_3
              (Returns True) double_3_3)"
  using float_sub_threshold
  by (simp add: tripped_def call_def check_open_def check_half_open_def)

text \<open>
  An exception whose conversion to a string raises is recorded, and the caller gets
  the exception of the conversion.
\<close>

lemma unprintable_failure:
  "call (initial 3 3 2) 0 (Raises unprintable :: bool outcome) 1 =
     \<lparr> outcome = Raises (Exn ValueError ''no text'' None), invoked = True,
       after = (initial 3 3 2)\<lparr> failure_count := 1, last_failure_time := Some 1 \<rparr> \<rparr>"
  by (simp add: initial_def unprintable_def call_defs log_and_reraise_def)

subsection \<open>Invariants of calls in sequence\<close>

lemma call_half_open_bound:
  assumes "0 \<le> half_open_max_requests b"
    and "state b = HALF_OPEN \<longrightarrow> half_open_request_count b \<le> half_open_max_requests b"
  shows "state (after (call b now func now')) = HALF_OPEN \<longrightarrow>
         half_open_request_count (after (call b now func now'))
           \<le> half_open_max_requests (after (call b now func now'))"
  using assms
  by (auto simp add: call_defs Let_def split: sum.splits option.splits outcome.splits if_splits)

text \<open>
  When calls do not overlap, the trial counter stays within a bound that is not
  negative.
\<close>

lemma run_half_open_bound:
  assumes "0 \<le> half_open_max_requests b"
    and "state b = HALF_OPEN \<longrightarrow> half_open_request_count b \<le> half_open_max_requests b"
  shows "state (run b evs) = HALF_OPEN \<longrightarrow>
         half_open_request_count (run b evs) \<le> half_open_max_requests (run b evs)"
  using assms
proof (induction b evs rule: run.induct)
  case (1 b)
  then show ?case by simp
next
  case (2 b now func now' evs)
  have "0 \<le> half_open_max_requests (after (call b now func now'))"
    using 2(2) by (simp add: call_config)
  moreover note call_half_open_bound [OF 2(2) 2(3), of now func now']
  ultimately show ?case using 2(1) by simp
qed

lemma call_open_has_time:
  assumes "state b = OPEN \<longrightarrow> last_failure_time b \<noteq> None"
  shows "state (after (call b now func now')) = OPEN \<longrightarrow>
         last_failure_time (after (call b now func now')) \<noteq> None"
  using assms
  by (auto simp add: call_defs Let_def split: sum.splits option.splits outcome.splits if_splits)

lemma run_open_has_time:
  assumes "state b = OPEN \<longrightarrow> last_failure_time b \<noteq> None"
  shows "state (run b evs) = OPEN \<longrightarrow> last_failure_time (run b evs) \<noteq> None"
  using assms
proof (induction b evs rule: run.induct)
  case (1 b)
  then show ?case by simp
next
  case (2 b now func now' evs)
  from call_open_has_time [OF 2(2), of now func now'] show ?case
    using 2(1) by simp
qed

text \<open>
  A call alone on an open breaker, when the timeout has passed and the bound is
  positive: half-open, the counter from 0 to 1, and the callable invoked.
\<close>

lemma alone_open_timeout_elapsed:
  assumes "state b = OPEN" and "last_failure_time b = Some t"
    and "ge_int (float_sub now t) (reset_timeout b)"
    and "0 < half_open_max_requests b"
  shows "check_open now b = Inr (b\<lparr> state := HALF_OPEN, half_open_request_count := 0 \<rparr>) \<and>
         check_half_open (b\<lparr> state := HALF_OPEN, half_open_request_count := 0 \<rparr>) =
           Inr (b\<lparr> state := HALF_OPEN, half_open_request_count := 1 \<rparr>) \<and>
         invoked (call b now func now')"
  using assms
  by (simp add: call_def check_open_def check_half_open_def split: outcome.splits)

subsection \<open>One thread alone\<close>

text \<open>A thread that runs with no other thread in between does what \<open>call\<close> does.\<close>

lemma single_thread_is_call:
  "exec [func] (b, [Start]) [(0, now), (0, now'), (0, now'), (0, now'), (0, now')] =
     (after (call b now func now'),
      [Finished (outcome (call b now func now')) (invoked (call b now func now'))])"
  by (auto simp add: call_def check_half_open_def split: sum.splits outcome.splits)

section \<open>Construction\<close>

text \<open>
  C1, as the code has it: a construction with a non-positive bound raises nothing and
  yields a breaker. Here \<open>CircuitBreaker(0, -1, 0)\<close> on a class without an instance.
\<close>

theorem construction_rejects_nonpositive_counterexample:
  "CircuitBreaker None 0 (- 1) 0 =
     Some (Ready \<lparr> max_failures = 0, reset_timeout = - 1, half_open_max_requests = 0,
                    failure_count = 0, last_failure_time = None, state = CLOSED,
                    half_open_request_count = 0 \<rparr>)"
  by (simp add: CircuitBreaker_def new_def init_def)

text \<open>
  C1, amended: construction checks nothing. With any three integers it yields an
  instance, and the first construction yields a closed breaker that holds exactly the
  three values given, with no failure counted, no failure time and no trial counted.
\<close>

theorem construction_never_rejects:
  "CircuitBreaker cls_instance mf rt hm \<noteq> None \<and>
   CircuitBreaker None mf rt hm =
     Some (Ready \<lparr> max_failures = mf, reset_timeout = rt, half_open_max_requests = hm,
                    failure_count = 0, last_failure_time = None, state = CLOSED,
                    half_open_request_count = 0 \<rparr>)"
  by (simp add: CircuitBreaker_def new_def init_def split: option.splits)

text \<open>
  C9: a second construction, with any arguments, returns the instance that exists and
  leaves each of its fields as it is; the new arguments are dropped.
\<close>

theorem second_construction_returns_existing:
  "CircuitBreaker (Some (Ready b)) mf' rt' hm' = Some (Ready b) \<and>
   CircuitBreaker (CircuitBreaker None mf rt hm) mf' rt' hm' = CircuitBreaker None mf rt hm"
  by (simp add: CircuitBreaker_def new_def init_def)

section \<open>A failing operation\<close>

text \<open>
  C2, as the code has it. A callable that raises \<open>RuntimeError\<close> with the message of
  the open circuit is invoked on a closed breaker, and the caller sees the very error
  of a call that an open breaker blocks. And an interrupt raised by the callable is not
  recorded: the breaker stays as it was.
\<close>

theorem failure_wrapped_distinguishable_counterexample:
  "outcome (call (initial 3 3 2) 0
              (Raises (Exn RuntimeError ''Circuit is open. Service call blocked.'' None)
                 :: bool outcome) 1) =
     outcome (call tripped 1 (Returns True) 2) \<and>
   invoked (call (initial 3 3 2) 0
              (Raises (Exn RuntimeError ''Circuit is open. Service call blocked.'' None)
                 :: bool outcome) 1) \<and>
   \<not> invoked (call tripped 1 (Returns True) 2) \<and>
   after (call (initial 3 3 2) 0 (Raises keyboard_interrupt :: bool outcome) 1) =
     initial 3 3 2"
  by (simp add: call_def check_open_def check_half_open_def record_failure_def
      circuit_open_error_def initial_def tripped_def keyboard_interrupt_def
      log_and_reraise_def float_sub_1_0)

text \<open>
  C2, amended: when the callable is invoked and raises an exception of a class below
  \<open>Exception\<close>, the failure is recorded (one more failure counted, the failure time
  set to the clock). When the conversion of that exception to a string for the log
  line returns, the caller gets that same exception, not wrapped, and it differs in
  class or message from every error of a call that did not invoke the callable, unless
  the callable raised just such an error itself.
\<close>

theorem failure_recorded_and_reraised:
  assumes "invoked (call b now (Raises e) now')" and "is_Exception e"
  shows "failure_count (after (call b now (Raises e) now')) = failure_count b + 1 \<and>
         last_failure_time (after (call b now (Raises e) now')) = Some now' \<and>
         (str_raises e = None \<longrightarrow>
            outcome (call b now (Raises e) now') = Raises e \<and>
            (e \<noteq> circuit_open_error \<and> e \<noteq> half_open_error \<and> e \<noteq> none_operand_error \<longrightarrow>
               (\<forall>b' t (f :: 'a outcome) t'.
                  \<not> invoked (call b' t f t') \<longrightarrow> outcome (call b' t f t') \<noteq> Raises e)))"
proof -
  have "outcome (call b now (Raises e) now') = Raises e" if "str_raises e = None"
    using assms that by (auto simp add: call_def log_and_reraise_def split: sum.splits)
  moreover note invoked_failure_after [OF assms]
  moreover have "\<forall>b' t (f :: 'a outcome) t'.
               \<not> invoked (call b' t f t') \<longrightarrow> outcome (call b' t f t') \<noteq> Raises e"
    if "e \<noteq> circuit_open_error \<and> e \<noteq> half_open_error \<and> e \<noteq> none_operand_error"
    using that not_invoked_errors by fastforce
  ultimately show ?thesis by blast
qed

theorem failure_recorded_and_reraised_witness:
  "invoked (call (initial 3 3 2) 0 (Raises service_failed :: bool outcome) 1) \<and>
   is_Exception service_failed \<and>
   str_raises service_failed = None \<and>
   outcome (call (initial 3 3 2) 0 (Raises service_failed :: bool outcome) 1)
     = Raises service_failed \<and>
   failure_count (after (call (initial 3 3 2) 0 (Raises service_failed :: bool outcome) 1))
     = 1 \<and>
   last_failure_time (after (call (initial 3 3 2) 0 (Raises service_failed :: bool outcome) 1))
     = Some 1 \<and>
   service_failed \<noteq> circuit_open_error \<and> service_failed \<noteq> half_open_error \<and>
   service_failed \<noteq> none_operand_error \<and>
   \<not> invoked (call tripped 1 (Returns True) 2) \<and>
   outcome (call tripped 1 (Returns True) 2) \<noteq> Raises service_failed"
proof -
  have h1: "invoked (call (initial 3 3 2) 0 (Raises service_failed :: bool outcome) 1)"
    by (simp add: call_defs initial_def service_failed_def)
  have h2: "is_Exception service_failed"
    by (simp add: service_failed_def)
  have h0: "str_raises service_failed = None"
    by (simp add: service_failed_def)
  have h3: "service_failed \<noteq> circuit_open_error \<and> service_failed \<noteq> half_open_error \<and>
            service_failed \<noteq> none_operand_error"
    by (simp add: service_failed_def circuit_open_error_def half_open_error_def
        none_operand_error_def)
  have h4: "\<not> invoked (call tripped 1 (Returns True) 2)"
    by (simp add: call_defs tripped_def float_sub_1_0)
  note r = failure_recorded_and_reraised [OF h1 h2]
  from r h0 h3 h4
  have h5: "outcome (call tripped 1 (Returns True) 2) \<noteq> Raises service_failed"
    by blast
  have fc: "failure_count (initial 3 3 2) = 0"
    by (simp add: initial_def)
  from r h0 have
    "outcome (call (initial 3 3 2) 0 (Raises service_failed :: bool outcome) 1)
       = Raises service_failed"
    "failure_count (after (call (initial 3 3 2) 0 (Raises service_failed :: bool outcome) 1))
       = failure_count (initial 3 3 2) + 1"
    "last_failure_time (after (call (initial 3 3 2) 0 (Raises service_failed :: bool outcome) 1))
       = Some 1"
    by blast+
  with fc h0 h1 h2 h3 h4 h5 show ?thesis
    by simp
qed



section \<open>The open circuit\<close>

text \<open>
  C4: a call on an open breaker, made when the time elapsed since \<open>last_failure_time\<close>
  (the difference of the two doubles, as the code computes it) is less than
  \<open>reset_timeout\<close>, raises the open-circuit error (the code's \<open>RuntimeError\<close> with the
  message "Circuit is open. Service call blocked."), does not invoke the callable, and
  leaves the breaker, with all its fields, as it was. The decision is made in one
  block under the lock, so it is the same for a thread among other threads.
\<close>

theorem open_call_blocked:
  assumes "state b = OPEN" and "last_failure_time b = Some t"
    and "lt_int (float_sub now t) (reset_timeout b)"
  shows "call b now func now' =
           \<lparr> outcome = Raises circuit_open_error, invoked = False, after = b \<rparr> \<and>
         thread_step now func Start b = (Finished (Raises circuit_open_error) False, b)"
  using assms by (simp add: call_def check_open_def lt_int_iff)

theorem open_call_blocked_witness:
  "state tripped = OPEN \<and> last_failure_time tripped = Some 0 \<and>
   lt_int (float_sub 2 0) (reset_timeout tripped) \<and>
   call tripped 2 (Returns True) 2 =
     \<lparr> outcome = Raises circuit_open_error, invoked = False, after = tripped \<rparr> \<and>
   thread_step 2 (Returns True) Start tripped =
     (Finished (Raises circuit_open_error) False, tripped)"
proof -
  have h1: "state tripped = OPEN"
    by (simp add: tripped_def)
  have h2: "last_failure_time tripped = Some 0"
    by (simp add: tripped_def)
  have h3: "lt_int (float_sub 2 0) (reset_timeout tripped)"
    by (simp add: tripped_def float_sub_2_0)
  from open_call_blocked [OF h1 h2 h3, of "Returns True" 2] h1 h2 h3
  show ?thesis by blast
qed

text \<open>
  C5, as the code has it: the half-open admission runs after the lock is released.
  Three threads call the tripped breaker (\<open>half_open_max_requests = 2\<close>) at time 3, when
  the timeout has passed. Thread 0 makes its call on the open breaker: it moves the
  breaker to half-open and sets the counter to 0. Before it reaches the admission
  test, threads 1 and 2 pass the test and increment. Thread 0 then finds the counter
  at the bound and is rejected: its callable is not invoked in that call.
\<close>

theorem flipping_call_overtaken:
  "state tripped = OPEN \<and>
   ge_int (float_sub 3 0) (reset_timeout tripped) \<and>
   sys_step [Returns True, Returns True, Returns True]
     (tripped, [Start, Start, Start]) (0, 3) =
     (tripped\<lparr> state := HALF_OPEN, half_open_request_count := 0 \<rparr>,
      [Checked, Start, Start]) \<and>
   exec [Returns True, Returns True, Returns True]
     (tripped, [Start, Start, Start]) overtaking =
     (tripped\<lparr> state := HALF_OPEN, half_open_request_count := 2 \<rparr>,
      [Finished (Raises half_open_error) False, Invoking, Invoking])"
  by (simp add: tripped_def overtaking_def check_open_def float_sub_3_0)

section \<open>A succeeding operation\<close>



section \<open>The bound on trial calls\<close>

text \<open>
  C7, as the code has it: the half-open test and the increment are apart and outside
  the lock. The module's breaker, from its initial state, is open after three
  failures. Three threads then call it at time 3: all three make the test while the
  counter is 0, and all three increment. The breaker is half-open with
  \<open>half_open_request_count = 3\<close>, above \<open>half_open_max_requests = 2\<close>, and none of the
  three calls was rejected.
\<close>

theorem half_open_count_exceeds_bound:
  "state (fst (exec [Returns True, Returns True, Returns True]
                 (run (initial 3 3 2) three_failures, [Start, Start, Start])
                 three_abreast)) = HALF_OPEN \<and>
   half_open_request_count
     (fst (exec [Returns True, Returns True, Returns True]
             (run (initial 3 3 2) three_failures, [Start, Start, Start])
             three_abreast)) = 3 \<and>
   half_open_max_requests
     (fst (exec [Returns True, Returns True, Returns True]
             (run (initial 3 3 2) three_failures, [Start, Start, Start])
             three_abreast)) = 2 \<and>
   snd (exec [Returns True, Returns True, Returns True]
          (run (initial 3 3 2) three_failures, [Start, Start, Start])
          three_abreast) = [Invoking, Invoking, Invoking]"
  by (simp add: three_failures_trip tripped_def three_abreast_def check_open_def
      float_sub_3_0)

section \<open>Sequences of calls\<close>

text \<open>
  C10: in every state that a sequence of calls reaches from a fresh breaker, an open
  state has \<open>last_failure_time\<close> set, so the subtraction in the open branch of \<open>call\<close>
  never meets \<open>None\<close>.
\<close>

theorem open_has_failure_time:
  "(state (run (initial mf rt hm) evs) = OPEN \<longrightarrow>
      last_failure_time (run (initial mf rt hm) evs) \<noteq> None) \<and>
   check_open now (run (initial mf rt hm) evs) \<noteq> Inl none_operand_error"
proof -
  have a: "state (run (initial mf rt hm) evs) = OPEN \<longrightarrow>
      last_failure_time (run (initial mf rt hm) evs) \<noteq> None"
    by (rule run_open_has_time) (simp add: initial_def)
  then have "check_open now (run (initial mf rt hm) evs) \<noteq> Inl none_operand_error"
    by (auto simp add: check_open_def none_operand_error_def circuit_open_error_def
        split: if_splits option.splits)
  with a show ?thesis by blast
qed

theorem open_has_failure_time_witness:
  "state (run (initial 3 3 2) three_failures) = OPEN \<and>
   last_failure_time (run (initial 3 3 2) three_failures) \<noteq> None \<and>
   check_open 1 (run (initial 3 3 2) three_failures) \<noteq> Inl none_operand_error"
proof -
  have h: "state (run (initial 3 3 2) three_failures) = OPEN"
    by (simp add: three_failures_trip tripped_def)
  from open_has_failure_time [of 3 3 2 three_failures 1] h
  show ?thesis by blast
qed

section \<open>Concurrent calls in the half-open state\<close>

text \<open>
  C8, as the code has it: the half-open test and the increment are not under the lock.
  Five threads call the tripped breaker (\<open>half_open_max_requests = 2\<close>) at time 3, when
  the timeout has passed. The first takes it to half-open; then all five make the
  test while the counter is still 0, all five increment, and all five invoke the
  callable: five invocations and no rejection, and the counter at 5 in the half-open
  state.
\<close>

theorem half_open_admission_race:
  "exec [Returns True, Returns True, Returns True, Returns True, Returns True]
     (tripped, [Start, Start, Start, Start, Start]) lockstep =
     (tripped\<lparr> state := HALF_OPEN, half_open_request_count := 5 \<rparr>,
      [Returned (Returns True), Returned (Returns True), Returned (Returns True),
       Returned (Returns True), Returned (Returns True)]) \<and>
   invocations (snd (exec [Returns True, Returns True, Returns True, Returns True, Returns True]
     (tripped, [Start, Start, Start, Start, Start]) lockstep)) = 5 \<and>
   rejections (snd (exec [Returns True, Returns True, Returns True, Returns True, Returns True]
     (tripped, [Start, Start, Start, Start, Start]) lockstep)) = 0"
  by (simp add: tripped_def lockstep_def check_open_def invocations_def rejections_def
      float_sub_3_0)
end
